theory Spec2Isabelle
  imports Complex_Main "HOL-Library.Word" "HOL-Library.Stream"
begin

section \<open>Python values, errors and the USB environment\<close>

text \<open>
  The model follows \<^verbatim>\<open>daqflex/devices.py\<close>. A method of \<^verbatim>\<open>MCCDevice\<close> takes the
  device object and returns it updated, paired with either the raised exception
  (\<open>Inl\<close>) or the returned value (\<open>Inr\<close>): an exception leaves the mutations made
  before it in place, as in Python.

  A \<^verbatim>\<open>usb.core.USBError\<close> carries an \<^verbatim>\<open>errno\<close>, which may be \<^verbatim>\<open>None\<close>.
\<close>

datatype usb_error = USBError (errno: "int option")

datatype error =
    IOError string
  | USBErr usb_error
  | UnicodeError
  | ValueError
  | IndexError
  | ZeroDivisionError

text \<open>\<^verbatim>\<open>errno.ETIMEDOUT\<close>, with its Linux value.\<close>

definition ETIMEDOUT :: int where
  "ETIMEDOUT = 110"

text \<open>
  What the USB stack answers is not decided by the program: the device object holds,
  for each kind of transfer, the stream of the outcomes of the transfers still to come.
  A transfer takes the head of its stream. Every theorem below quantifies over these
  streams, hence over every behaviour of the hardware.
\<close>

datatype ctrl_out_result = Written nat | OutFault usb_error

datatype ctrl_in_result = Reply string | InFault usb_error

datatype bulk_result = Packet "8 word list" | BulkFault usb_error

text \<open>
  The concrete subclasses of \<^verbatim>\<open>MCCDevice\<close> and their class constant
  \<^verbatim>\<open>max_counts\<close>. The base class cannot be instantiated (\<^verbatim>\<open>id_product\<close> is
  \<^verbatim>\<open>None\<close> there).
\<close>

datatype device_class =
    USB_7202 | USB_7204 | USB_2001_TC | USB_1608FS_Plus | USB_1608G
  | USB_1608GX | USB_1608GX_2AO | USB_201 | USB_204 | USB_1208FS

fun max_counts :: "device_class \<Rightarrow> int" where
  "max_counts USB_7202 = 0xFFFF"
| "max_counts USB_7204 = 0x0FFF"
| "max_counts USB_2001_TC = 1"
| "max_counts USB_1608FS_Plus = 0xFFFF"
| "max_counts USB_1608G = 0xFFFF"
| "max_counts USB_1608GX = 0xFFFF"
| "max_counts USB_1608GX_2AO = 0xFFFF"
| "max_counts USB_201 = 0x0FFF"
| "max_counts USB_204 = 0x0FFF"
| "max_counts USB_1208FS = 0x0FFF"

text \<open>
  The fields of the device object that the acquisition methods read or write:
  \<open>calib_data\<close>, \<open>read_recursion_depth\<close> and \<open>conf\<close> are the attributes of the same
  name; \<open>cls\<close> is the object's class; \<open>bulk_packet_size\<close> is \<^verbatim>\<open>_bulk_packet_size\<close>,
  the number of bytes every bulk read asks for; \<open>ctrl_out\<close>, \<open>ctrl_in\<close> and \<open>ep_in\<close>
  are the pending outcomes of the control writes, the control reads and the bulk reads;
  \<open>sent\<close> records every payload handed to a control write, in order.
\<close>

record mcc_device =
  cls :: device_class
  bulk_packet_size :: nat
  ctrl_out :: "ctrl_out_result stream"
  ctrl_in :: "ctrl_in_result stream"
  ep_in :: "bulk_result stream"
  sent :: "string list"
  calib_data :: "(int \<times> string \<times> string) \<rightharpoonup> (real \<times> real)"
  read_recursion_depth :: int
  conf :: "(string \<times> int \<times> int \<times> int \<times> int \<times> int) option"

section \<open>Strings\<close>

definition ascii :: "string \<Rightarrow> bool" where
  "ascii s = list_all (\<lambda>c. of_char c < (128::nat)) s"

text \<open>\<^verbatim>\<open>str.upper\<close> on ASCII text.\<close>

definition upper_char :: "char \<Rightarrow> char" where
  "upper_char c =
     (case map_of (zip ''abcdefghijklmnopqrstuvwxyz'' ''ABCDEFGHIJKLMNOPQRSTUVWXYZ'') c of
        Some u \<Rightarrow> u
      | None \<Rightarrow> c)"

definition upper :: "string \<Rightarrow> string" where
  "upper s = map upper_char s"

text \<open>\<^verbatim>\<open>s.rstrip(chr(0))\<close>.\<close>

definition rstrip_nul :: "string \<Rightarrow> string" where
  "rstrip_nul s = rev (dropWhile (\<lambda>c. c = CHR 0x00) (rev s))"

text \<open>\<^verbatim>\<open>"%d" % n\<close> for an integer.\<close>

definition digit_char :: "nat \<Rightarrow> char" where
  "digit_char d = ''0123456789'' ! d"

fun show_nat :: "nat \<Rightarrow> string" where
  "show_nat n =
     (if n < 10 then [digit_char n] else show_nat (n div 10) @ [digit_char (n mod 10)])"

declare show_nat.simps [simp del]

definition show_int :: "int \<Rightarrow> string" where
  "show_int i = (if i < 0 then CHR ''-'' # show_nat (nat (- i)) else show_nat (nat i))"

text \<open>\<^verbatim>\<open>s.split(sep)\<close> for a one-character separator: never an empty list.\<close>

fun split_on :: "char \<Rightarrow> string \<Rightarrow> string list" where
  "split_on sep [] = [[]]"
| "split_on sep (c # cs) =
     (if c = sep then [] # split_on sep cs
      else (case split_on sep cs of [] \<Rightarrow> [[c]] | p # ps \<Rightarrow> (c # p) # ps))"

section \<open>The command channel\<close>

text \<open>
  \<^verbatim>\<open>send_message\<close>: the message gets its null terminator, is upper-cased and encoded
  (an exception of its own for text that is not ASCII, raised before anything is
  written), and written by a control transfer. A USB fault of the write, or a write of
  another length than the message's, is an \<^verbatim>\<open>IOError\<close>. The reply is read outside the
  \<^verbatim>\<open>try\<close>: a USB fault there propagates as it is. The reply is decoded as ASCII and
  loses its trailing null bytes.
\<close>

definition send_message :: "string \<Rightarrow> mcc_device \<Rightarrow> (error + string) \<times> mcc_device" where
  "send_message message0 dev =
     (let message = message0 @ [CHR 0x00] in
      if \<not> ascii message then (Inl UnicodeError, dev)
      else
        let dev1 = dev\<lparr>ctrl_out := stl (ctrl_out dev), sent := sent dev @ [upper message]\<rparr> in
        (case shd (ctrl_out dev) of
           OutFault err \<Rightarrow> (Inl (IOError ''Send failed, possibly wrong command?''), dev1)
         | Written n \<Rightarrow>
             if n \<noteq> length message then (Inl (IOError ''Could not send message''), dev1)
             else
               let dev2 = dev1\<lparr>ctrl_in := stl (ctrl_in dev1)\<rparr> in
               (case shd (ctrl_in dev1) of
                  InFault err \<Rightarrow> (Inl (USBErr err), dev2)
                | Reply ret \<Rightarrow>
                    if \<not> ascii ret then (Inl UnicodeError, dev2)
                    else (Inr (rstrip_nul ret), dev2))))"

definition stop :: "mcc_device \<Rightarrow> (error + string) \<times> mcc_device" where
  "stop dev = send_message ''AISCAN:STOP'' dev"

section \<open>Scan configuration\<close>

text \<open>
  \<^verbatim>\<open>configure_read\<close>. The channel numbers and the range are \<open>int\<close> here, so the
  \<^verbatim>\<open>isinstance\<close> checks pass. The new configuration is compared with the recorded
  one; only when they differ are the six commands sent, and \<open>conf\<close> is assigned after
  the last of them.
\<close>

definition configure_read ::
  "int \<Rightarrow> int \<Rightarrow> int \<Rightarrow> int \<Rightarrow> int \<Rightarrow> string \<Rightarrow> mcc_device \<Rightarrow> (error + unit) \<times> mcc_device" where
  "configure_read frequency nsamples lowchan highchan vrange mode dev =
     (let vrange_code = ''BIP'' @ show_int vrange @ ''V'';
          new_conf = (mode, vrange, lowchan, highchan, frequency, nsamples) in
      if Some new_conf = conf dev then (Inr (), dev)
      else
        (case send_message (''AI:CHMODE='' @ mode) dev of
           (Inl e, d) \<Rightarrow> (Inl e, d)
         | (Inr r1, d1) \<Rightarrow>
        (case send_message (''AISCAN:RANGE='' @ vrange_code) d1 of
           (Inl e, d) \<Rightarrow> (Inl e, d)
         | (Inr r2, d2) \<Rightarrow>
        (case send_message (''AISCAN:LOWCHAN='' @ show_int lowchan) d2 of
           (Inl e, d) \<Rightarrow> (Inl e, d)
         | (Inr r3, d3) \<Rightarrow>
        (case send_message (''AISCAN:HIGHCHAN='' @ show_int highchan) d3 of
           (Inl e, d) \<Rightarrow> (Inl e, d)
         | (Inr r4, d4) \<Rightarrow>
        (case send_message (''AISCAN:RATE='' @ show_int frequency) d4 of
           (Inl e, d) \<Rightarrow> (Inl e, d)
         | (Inr r5, d5) \<Rightarrow>
        (case send_message (''AISCAN:SAMPLES='' @ show_int nsamples) d5 of
           (Inl e, d) \<Rightarrow> (Inl e, d)
         | (Inr r6, d6) \<Rightarrow> (Inr (), d6\<lparr>conf := Some new_conf\<rparr>))))))))"

section \<open>Calibration\<close>

text \<open>
  \<^verbatim>\<open>get_calib_data\<close>: two queries, each answered by \<^verbatim>\<open>KEY=VALUE\<close>; the text after
  the first \<^verbatim>\<open>=\<close> (an \<^verbatim>\<open>IndexError\<close> without one) goes through Python's
  \<^verbatim>\<open>float\<close>, which is a parameter \<open>pyfloat\<close> of the model (\<open>None\<close> where
  \<^verbatim>\<open>float\<close> raises \<^verbatim>\<open>ValueError\<close>). Floating-point numbers are modelled as reals.
\<close>

definition second_field :: "string \<Rightarrow> error + string" where
  "second_field s = (case split_on CHR ''='' s of a # b # rest \<Rightarrow> Inr b | _ \<Rightarrow> Inl IndexError)"

definition parse_float :: "(string \<Rightarrow> real option) \<Rightarrow> string \<Rightarrow> error + real" where
  "parse_float pyfloat reply =
     (case second_field reply of
        Inl e \<Rightarrow> Inl e
      | Inr s \<Rightarrow> (case pyfloat s of None \<Rightarrow> Inl ValueError | Some x \<Rightarrow> Inr x))"

definition get_calib_data ::
  "(string \<Rightarrow> real option) \<Rightarrow> int \<Rightarrow> mcc_device \<Rightarrow> (error + real \<times> real) \<times> mcc_device" where
  "get_calib_data pyfloat channel dev =
     (case send_message (''?AI{'' @ show_int channel @ ''}:SLOPE'') dev of
        (Inl e, d) \<Rightarrow> (Inl e, d)
      | (Inr r1, d1) \<Rightarrow>
     (case parse_float pyfloat r1 of
        Inl e \<Rightarrow> (Inl e, d1)
      | Inr slope \<Rightarrow>
     (case send_message (''?AI{'' @ show_int channel @ ''}:OFFSET'') d1 of
        (Inl e, d) \<Rightarrow> (Inl e, d)
      | (Inr r2, d2) \<Rightarrow>
     (case parse_float pyfloat r2 of
        Inl e \<Rightarrow> (Inl e, d2)
      | Inr offset \<Rightarrow> (Inr (slope, offset), d2)))))"

text \<open>
  The cache lookup of \<^verbatim>\<open>simple_read\<close> (the lines from \<^verbatim>\<open>key = (chan, mode,
  vrange_code)\<close> to \<^verbatim>\<open>cal = self.calib_data[key]\<close>): a key that is not in
  \<open>calib_data\<close> is queried and stored, then the stored pair is read.
\<close>

definition calib_lookup ::
  "(string \<Rightarrow> real option) \<Rightarrow> int \<Rightarrow> string \<Rightarrow> string \<Rightarrow> mcc_device
     \<Rightarrow> (error + real \<times> real) \<times> mcc_device" where
  "calib_lookup pyfloat chan mode vrange_code dev =
     (let key = (chan, mode, vrange_code) in
      case calib_data dev key of
        Some cal \<Rightarrow> (Inr cal, dev)
      | None \<Rightarrow>
          (case get_calib_data pyfloat chan dev of
             (Inl e, d) \<Rightarrow> (Inl e, d)
           | (Inr cal, d) \<Rightarrow> (Inr cal, d\<lparr>calib_data := (calib_data d)(key \<mapsto> cal)\<rparr>)))"

text \<open>\<^verbatim>\<open>scale_and_calibrate_data\<close>, a class method, on one value.\<close>

definition scale_and_calibrate_data ::
  "device_class \<Rightarrow> real \<Rightarrow> real \<Rightarrow> real \<Rightarrow> real \<times> real \<Rightarrow> real" where
  "scale_and_calibrate_data c data min_voltage max_voltage calib =
     (let slope = fst calib;
          offset = snd calib;
          full_scale = max_voltage - min_voltage;
          cal_data = data * slope + offset in
      (cal_data / real_of_int (max_counts c)) * full_scale + min_voltage)"

section \<open>Synchronous bulk reads\<close>

text \<open>
  The bytes of a packet become 16-bit samples, two bytes each, low byte first
  (\<^verbatim>\<open>array.array('H').fromstring\<close> on a little-endian machine).
\<close>

fun samples_of :: "8 word list \<Rightarrow> 16 word list" where
  "samples_of (lo # hi # rest) = (ucast lo + 256 * ucast hi) # samples_of rest"
| "samples_of rest = []"

text \<open>
  The loop of \<^verbatim>\<open>read_scan_data\<close>. A USB fault whose \<^verbatim>\<open>errno\<close> is not
  \<^verbatim>\<open>ETIMEDOUT\<close> is raised again; a timeout leaves \<^verbatim>\<open>packet\<close> at \<^verbatim>\<open>None\<close> and
  ends the loop, as an empty packet does. \<^verbatim>\<open>fromstring\<close> raises \<^verbatim>\<open>ValueError\<close>
  on an odd number of bytes. The length is compared after the packet was appended.
\<close>

function read_scan_loop ::
  "int \<Rightarrow> 16 word list \<Rightarrow> mcc_device \<Rightarrow> (error + 16 word list) \<times> mcc_device" where
  "read_scan_loop len data dev =
     (case shd (ep_in dev) of
        BulkFault err \<Rightarrow>
          if errno err \<noteq> Some ETIMEDOUT then (Inl (USBErr err), dev\<lparr>ep_in := stl (ep_in dev)\<rparr>)
          else (Inr data, dev\<lparr>ep_in := stl (ep_in dev)\<rparr>)
      | Packet packet \<Rightarrow>
          if length packet = 0 then (Inr data, dev\<lparr>ep_in := stl (ep_in dev)\<rparr>)
          else if odd (length packet) then (Inl ValueError, dev\<lparr>ep_in := stl (ep_in dev)\<rparr>)
          else if len \<le> int (length (data @ samples_of packet))
          then (Inr (data @ samples_of packet), dev\<lparr>ep_in := stl (ep_in dev)\<rparr>)
          else read_scan_loop len (data @ samples_of packet) (dev\<lparr>ep_in := stl (ep_in dev)\<rparr>))"
  by pat_completeness auto

text \<open>
  \<^verbatim>\<open>read_scan_data\<close>: the timeout divides by the rate, in floating point, so a rate of
  zero raises before any read. The outcome of a read is the environment's, whatever the
  timeout, so the timeout's value is not part of the model.
\<close>

definition read_scan_data ::
  "int \<Rightarrow> int \<Rightarrow> mcc_device \<Rightarrow> (error + 16 word list) \<times> mcc_device" where
  "read_scan_data len rate dev =
     (if rate = 0 then (Inl ZeroDivisionError, dev) else read_scan_loop len [] dev)"

text \<open>
  \<^verbatim>\<open>flush_input_data\<close> reads until a USB fault (of any kind) or an empty packet. A
  device that never stops sending keeps the loop running: the result is an option, and
  \<open>None\<close> is the call that does not return.
\<close>

partial_function (option) flush_input_data :: "mcc_device \<Rightarrow> mcc_device option" where
  "flush_input_data dev =
     (case shd (ep_in dev) of
        BulkFault err \<Rightarrow> Some (dev\<lparr>ep_in := stl (ep_in dev)\<rparr>)
      | Packet packet \<Rightarrow>
          if length packet = 0 then Some (dev\<lparr>ep_in := stl (ep_in dev)\<rparr>)
          else flush_input_data (dev\<lparr>ep_in := stl (ep_in dev)\<rparr>))"

section \<open>The one-shot read\<close>

text \<open>
  The extended slice \<^verbatim>\<open>data[start::step]\<close> of Python and numpy: a start below zero
  counts from the end, a start beyond the array is clipped, a step of zero raises
  \<^verbatim>\<open>ValueError\<close>, a step below zero walks towards the front.
\<close>

fun every :: "nat \<Rightarrow> 'a list \<Rightarrow> 'a list" where
  "every k [] = []"
| "every k (x # xs) = x # every k (drop (k - 1) xs)"

definition slice_from :: "int \<Rightarrow> int \<Rightarrow> 'a list \<Rightarrow> error + 'a list" where
  "slice_from start step xs =
     (let n = int (length xs) in
      if step = 0 then Inl ValueError
      else if 0 < step then
        Inr (every (nat step)
               (drop (nat (if start < 0 then max (start + n) 0 else min start n)) xs))
      else
        Inr (every (nat (- step))
               (rev (take (nat ((if start < 0 then max (start + n) (- 1)
                                 else min start (n - 1)) + 1)) xs))))"

text \<open>
  What \<^verbatim>\<open>simple_read\<close> returns: for each channel either raw counts (\<^verbatim>\<open>scale\<close>
  false) or volts; a dictionary, kept in insertion order, or the only array of a
  dictionary of one entry.
\<close>

datatype channel_data = Counts "16 word list" | Volts "real list"

datatype read_output = Sequence channel_data | Mapping "(int \<times> channel_data) list"

text \<open>\<^verbatim>\<open>out[chan] = v\<close>.\<close>

fun dict_set :: "int \<Rightarrow> 'v \<Rightarrow> (int \<times> 'v) list \<Rightarrow> (int \<times> 'v) list" where
  "dict_set k v [] = [(k, v)]"
| "dict_set k v ((k', v') # kvs) =
     (if k' = k then (k, v) # kvs else (k', v') # dict_set k v kvs)"

text \<open>
  The loop \<^verbatim>\<open>for chan in range(lowchan, max(lowchan + 1, highchan))\<close> of
  \<^verbatim>\<open>simple_read\<close>, over the list of the channels still to visit: the slice
  \<^verbatim>\<open>data[chan::nchannels]\<close> is stored, and with \<^verbatim>\<open>scale\<close> replaced by its
  calibrated values, the calibration pair read through the cache.
\<close>

fun simple_read_channels ::
  "(string \<Rightarrow> real option) \<Rightarrow> int \<Rightarrow> int \<Rightarrow> string \<Rightarrow> bool \<Rightarrow> 16 word list \<Rightarrow> int list
     \<Rightarrow> (int \<times> channel_data) list \<Rightarrow> mcc_device
     \<Rightarrow> (error + (int \<times> channel_data) list) \<times> mcc_device" where
  "simple_read_channels pyfloat nchannels vrange mode scale data [] out dev = (Inr out, dev)"
| "simple_read_channels pyfloat nchannels vrange mode scale data (chan # chans) out dev =
     (case slice_from chan nchannels data of
        Inl e \<Rightarrow> (Inl e, dev)
      | Inr column \<Rightarrow>
          if scale then
            (case calib_lookup pyfloat chan mode (''BIP'' @ show_int vrange @ ''V'') dev of
               (Inl e, d) \<Rightarrow> (Inl e, d)
             | (Inr cal, d) \<Rightarrow>
                 simple_read_channels pyfloat nchannels vrange mode scale data chans
                   (dict_set chan
                      (Volts (map (\<lambda>w. scale_and_calibrate_data (cls d) (real (unat w))
                                          (- real_of_int vrange) (real_of_int vrange) cal) column))
                      (dict_set chan (Counts column) out))
                   d)
          else
            simple_read_channels pyfloat nchannels vrange mode scale data chans
              (dict_set chan (Counts column) out) dev)"

text \<open>
  The part of \<^verbatim>\<open>simple_read\<close> after the retry: \<^verbatim>\<open>nsamples / nchannels\<close> raises on
  zero channels; the loop over the channels; a dictionary of one entry is replaced by
  its value.
\<close>

definition simple_read_output ::
  "(string \<Rightarrow> real option) \<Rightarrow> int \<Rightarrow> int \<Rightarrow> int \<Rightarrow> string \<Rightarrow> bool \<Rightarrow> 16 word list
     \<Rightarrow> mcc_device \<Rightarrow> (error + read_output) \<times> mcc_device" where
  "simple_read_output pyfloat lowchan highchan vrange mode scale data dev =
     (let nchannels = 1 + highchan - lowchan in
      if nchannels = 0 then (Inl ZeroDivisionError, dev)
      else
        (case simple_read_channels pyfloat nchannels vrange mode scale data
                [lowchan .. max (lowchan + 1) highchan - 1] [] dev of
           (Inl e, d) \<Rightarrow> (Inl e, d)
         | (Inr out, d) \<Rightarrow>
             (case out of
                [(key, column)] \<Rightarrow> (Inr (Sequence column), d)
              | _ \<Rightarrow> (Inr (Mapping out), d))))"

text \<open>
  The start of \<^verbatim>\<open>simple_read\<close>: configure, start the scan, read, stop. Each step's
  exception ends the call (the scan is not stopped when the read raises).
\<close>

definition simple_read_scan ::
  "int \<Rightarrow> int \<Rightarrow> int \<Rightarrow> int \<Rightarrow> int \<Rightarrow> string \<Rightarrow> mcc_device
     \<Rightarrow> (error + 16 word list) \<times> mcc_device" where
  "simple_read_scan frequency nsamples lowchan highchan vrange mode dev =
     (case configure_read frequency nsamples lowchan highchan vrange mode dev of
        (Inl e, d) \<Rightarrow> (Inl e, d)
      | (Inr u, d1) \<Rightarrow>
     (case send_message ''AISCAN:START'' d1 of
        (Inl e, d) \<Rightarrow> (Inl e, d)
      | (Inr r, d2) \<Rightarrow>
     (case read_scan_data nsamples frequency d2 of
        (Inl e, d) \<Rightarrow> (Inl e, d)
      | (Inr raw, d3) \<Rightarrow>
     (case stop d3 of
        (Inl e, d) \<Rightarrow> (Inl e, d)
      | (Inr r', d4) \<Rightarrow> (Inr raw, d4)))))"

text \<open>
  \<^verbatim>\<open>simple_read\<close>. A read of another length than \<^verbatim>\<open>nsamples\<close> is retried while
  \<open>read_recursion_depth\<close> is below 10: the depth is incremented, the input is flushed
  and the method calls itself. Otherwise the depth is reset and the data goes on to the
  channels. \<open>None\<close> is the call that does not return, which only a flush that does not
  return causes.
\<close>

function simple_read ::
  "(string \<Rightarrow> real option) \<Rightarrow> int \<Rightarrow> int \<Rightarrow> int \<Rightarrow> int \<Rightarrow> int \<Rightarrow> string \<Rightarrow> bool \<Rightarrow> mcc_device
     \<Rightarrow> ((error + read_output) \<times> mcc_device) option" where
  "simple_read pyfloat frequency nsamples lowchan highchan vrange mode scale dev =
     (case simple_read_scan frequency nsamples lowchan highchan vrange mode dev of
        (Inl e, d) \<Rightarrow> Some (Inl e, d)
      | (Inr raw, d) \<Rightarrow>
          if int (length raw) \<noteq> nsamples then
            if read_recursion_depth d < 10 then
              (case flush_input_data (d\<lparr>read_recursion_depth := read_recursion_depth d + 1\<rparr>) of
                 None \<Rightarrow> None
               | Some d' \<Rightarrow>
                   simple_read pyfloat frequency nsamples lowchan highchan vrange mode scale d')
            else
              Some (simple_read_output pyfloat lowchan highchan vrange mode scale raw
                      (d\<lparr>read_recursion_depth := 0\<rparr>))
          else
            Some (simple_read_output pyfloat lowchan highchan vrange mode scale raw
                    (d\<lparr>read_recursion_depth := 0\<rparr>)))"
  by pat_completeness auto

section \<open>The bounded buffer of the continuous transfer\<close>

text \<open>
  \<^verbatim>\<open>collections.deque(maxlen=n)\<close>: \<^verbatim>\<open>append\<close> adds on the right, and a deque that
  became longer than \<open>maxlen\<close> drops its leftmost element.
\<close>

record 'a deque =
  maxlen :: nat
  items :: "'a list"

definition deque_new :: "nat \<Rightarrow> 'a deque" where
  "deque_new n = \<lparr>maxlen = n, items = []\<rparr>"

definition deque_append :: "'a \<Rightarrow> 'a deque \<Rightarrow> 'a deque" where
  "deque_append x dq =
     (let xs = items dq @ [x] in
      if maxlen dq < length xs then dq\<lparr>items := tl xs\<rparr> else dq\<lparr>items := xs\<rparr>)"

text \<open>
  \<^verbatim>\<open>start_continuous_transfer\<close>: the packet size, computed from the rate unless it is
  given, and the fresh buffer that is handed to the polling thread.
\<close>

definition start_continuous_transfer ::
  "int \<Rightarrow> nat \<Rightarrow> int option \<Rightarrow> int \<times> 8 word list deque" where
  "start_continuous_transfer rate buf_size packet_size =
     ((case packet_size of None \<Rightarrow> (rate div 1000 + 1) * 64 | Some n \<Rightarrow> n),
      deque_new buf_size)"

text \<open>
  Modelled from the spec: the loop of \<^verbatim>\<open>PollingThread\<close>, whose module
  \<^verbatim>\<open>daqflex/utils.py\<close> is not among the sources. Section 4.5: any exception from an
  individual read is swallowed and the loop retries; each successfully read packet is
  appended to the buffer, evicting the oldest packet if at capacity. The function runs
  the poller over the outcomes of its reads.
\<close>

fun polling_thread_run :: "bulk_result list \<Rightarrow> 8 word list deque \<Rightarrow> 8 word list deque" where
  "polling_thread_run [] buf = buf"
| "polling_thread_run (BulkFault err # rs) buf = polling_thread_run rs buf"
| "polling_thread_run (Packet packet # rs) buf = polling_thread_run rs (deque_append packet buf)"

text \<open>The packets among the outcomes of the reads, in the order they were read.\<close>

fun packets_of :: "bulk_result list \<Rightarrow> 8 word list list" where
  "packets_of [] = []"
| "packets_of (BulkFault err # rs) = packets_of rs"
| "packets_of (Packet packet # rs) = packet # packets_of rs"

section \<open>Vocabulary of the properties\<close>

text \<open>
  The payload that \<^verbatim>\<open>send_message\<close> writes for a message; the devices that take a
  list of messages in full and answer each with an ASCII reply; and the six commands of
  a configuration, in the order the specification gives them: channel mode, range, low
  channel, high channel, rate, sample count.
\<close>

definition wire :: "string \<Rightarrow> string" where
  "wire m = upper (m @ [CHR 0x00])"

fun accepts :: "string list \<Rightarrow> string list \<Rightarrow> ctrl_out_result stream \<Rightarrow> ctrl_in_result stream \<Rightarrow> bool" where
  "accepts [] [] co ci = True"
| "accepts (m # ms) (r # rs) co ci =
     (ascii (m @ [CHR 0x00]) \<and> shd co = Written (length (m @ [CHR 0x00]))
      \<and> shd ci = Reply r \<and> ascii r \<and> accepts ms rs (stl co) (stl ci))"
| "accepts ms rs co ci = False"

definition configure_commands :: "int \<Rightarrow> int \<Rightarrow> int \<Rightarrow> int \<Rightarrow> int \<Rightarrow> string \<Rightarrow> string list" where
  "configure_commands frequency nsamples lowchan highchan vrange mode =
     [''AI:CHMODE='' @ mode,
      ''AISCAN:RANGE=BIP'' @ show_int vrange @ ''V'',
      ''AISCAN:LOWCHAN='' @ show_int lowchan,
      ''AISCAN:HIGHCHAN='' @ show_int highchan,
      ''AISCAN:RATE='' @ show_int frequency,
      ''AISCAN:SAMPLES='' @ show_int nsamples]"

text \<open>Sending a list of messages, up to the first that raises.\<close>

fun send_all :: "string list \<Rightarrow> mcc_device \<Rightarrow> (error + unit) \<times> mcc_device" where
  "send_all [] dev = (Inr (), dev)"
| "send_all (m # ms) dev =
     (case send_message m dev of (Inl e, d) \<Rightarrow> (Inl e, d) | (Inr r, d) \<Rightarrow> send_all ms d)"

text \<open>The two queries of a calibration lookup: slope, then offset.\<close>

definition calib_queries :: "int \<Rightarrow> string list" where
  "calib_queries channel =
     [''?AI{'' @ show_int channel @ ''}:SLOPE'', ''?AI{'' @ show_int channel @ ''}:OFFSET'']"

text \<open>
  Bulk reads: the timeout, the packets that hold whole samples, and the devices whose
  packets are never longer than the size the read asks for.
\<close>

definition timed_out :: bulk_result where
  "timed_out = BulkFault (USBError (Some ETIMEDOUT))"



text \<open>
  The retry of \<^verbatim>\<open>simple_read\<close>: the scans started so far, read off the commands
  sent; and \<open>short_reads k\<close>, which runs \<open>k + 1\<close> attempts in a row, each reading another
  length than asked, with the depth incremented and the input flushed between two
  attempts, and gives the data and the device of the last attempt (\<open>None\<close> when an
  attempt raises, reads the right length, or a flush does not return).
\<close>

definition scan_starts :: "mcc_device \<Rightarrow> nat" where
  "scan_starts dev = count_list (sent dev) (wire ''AISCAN:START'')"

fun short_reads ::
  "nat \<Rightarrow> int \<Rightarrow> int \<Rightarrow> int \<Rightarrow> int \<Rightarrow> int \<Rightarrow> string \<Rightarrow> mcc_device \<Rightarrow> (16 word list \<times> mcc_device) option" where
  "short_reads 0 frequency nsamples lowchan highchan vrange mode dev =
     (case simple_read_scan frequency nsamples lowchan highchan vrange mode dev of
        (Inl e, d) \<Rightarrow> None
      | (Inr raw, d) \<Rightarrow> if int (length raw) \<noteq> nsamples then Some (raw, d) else None)"
| "short_reads (Suc k) frequency nsamples lowchan highchan vrange mode dev =
     (case simple_read_scan frequency nsamples lowchan highchan vrange mode dev of
        (Inl e, d) \<Rightarrow> None
      | (Inr raw, d) \<Rightarrow>
          if int (length raw) \<noteq> nsamples then
            (case flush_input_data (d\<lparr>read_recursion_depth := read_recursion_depth d + 1\<rparr>) of
               None \<Rightarrow> None
             | Some d' \<Rightarrow> short_reads k frequency nsamples lowchan highchan vrange mode d')
          else None)"

text \<open>
  Concrete devices for the examples: a device class with 64-byte packets that answers
  the given writes and replies and delivers the given packets, then is silent; and the
  device that times out on every bulk read while accepting the commands of eleven
  attempts of the scan of the scenario.
\<close>

definition quiet :: "bulk_result stream" where
  "quiet = sconst timed_out"

definition scenario_device :: "8 word list list \<Rightarrow> nat list \<Rightarrow> string list \<Rightarrow> mcc_device" where
  "scenario_device packets writes replies =
     \<lparr>cls = USB_7202,
      bulk_packet_size = 64,
      ctrl_out = map Written writes @- sconst (Written 0),
      ctrl_in = map Reply replies @- sconst (Reply ''''),
      ep_in = map Packet packets @- quiet,
      sent = [],
      calib_data = Map.empty,
      read_recursion_depth = 0,
      conf = None\<rparr>"

definition quiet_device :: mcc_device where
  "quiet_device =
     scenario_device []
       [13, 20, 17, 18, 17, 17, 13, 12, 13, 12, 13, 12, 13, 12, 13, 12, 13, 12,
        13, 12, 13, 12, 13, 12, 13, 12, 13, 12] []"

definition attempts_made :: "((error + read_output) \<times> mcc_device) option \<Rightarrow> nat option" where
  "attempts_made r = map_option (\<lambda>x. scan_starts (snd x)) r"

definition example_float :: "string \<Rightarrow> real option" where
  "example_float s = (if s = ''1.5'' then Some (3 / 2) else if s = ''0.25'' then Some (1 / 4) else None)"

section \<open>Termination\<close>

text \<open>
  The loop of \<^verbatim>\<open>read_scan_data\<close> ends: a packet that does not end it holds at least
  one sample, and the loop goes on only while fewer samples than asked for are there.
\<close>

lemma length_samples_of: "length (samples_of bs) = length bs div 2"
  by (induction bs rule: samples_of.induct) simp_all

termination read_scan_loop
proof (relation "measure (\<lambda>(len, data, dev). nat (len - int (length data)))")
  show "wf (measure (\<lambda>(len, data, dev). nat (len - int (length data))))"
    by simp
next
  fix len :: int and data :: "16 word list" and dev :: mcc_device and packet :: "8 word list"
  assume nonempty: "length packet \<noteq> 0"
    and even_len: "\<not> odd (length packet)"
    and short: "\<not> len \<le> int (length (data @ samples_of packet))"
  from nonempty even_len have "2 \<le> length packet"
    by (cases packet rule: samples_of.cases) simp_all
  then have "0 < length (samples_of packet)"
    by (simp add: length_samples_of)
  with short
  show "((len, data @ samples_of packet, dev\<lparr>ep_in := stl (ep_in dev)\<rparr>), (len, data, dev))
          \<in> measure (\<lambda>(len, data, dev). nat (len - int (length data)))"
    by simp
qed

declare read_scan_loop.simps [simp del]

text \<open>The retry terminates: nothing but the retry itself changes the depth.\<close>

lemma send_message_depth:
  "read_recursion_depth (snd (send_message m dev)) = read_recursion_depth dev"
  by (simp add: send_message_def Let_def split: ctrl_out_result.split ctrl_in_result.split)

lemma configure_read_depth:
  "read_recursion_depth (snd (configure_read f n lo hi vr mode dev)) = read_recursion_depth dev"
  unfolding configure_read_def Let_def
  by (auto split: prod.split sum.split
      dest!: arg_cong [where f = "\<lambda>r. read_recursion_depth (snd r)"]
      simp: send_message_depth)

lemma read_scan_loop_depth:
  "read_recursion_depth (snd (read_scan_loop len data dev)) = read_recursion_depth dev"
proof (induction len data dev rule: read_scan_loop.induct)
  case (1 len data dev)
  show ?case
    by (subst read_scan_loop.simps) (simp add: 1 split: bulk_result.split)
qed

lemma simple_read_scan_depth:
  "read_recursion_depth (snd (simple_read_scan f n lo hi vr mode dev)) = read_recursion_depth dev"
  unfolding simple_read_scan_def stop_def read_scan_data_def
  by (auto split: prod.split sum.split
      dest!: arg_cong [where f = "\<lambda>r. read_recursion_depth (snd r)"]
      simp: send_message_depth configure_read_depth read_scan_loop_depth)

lemma flush_input_data_depth:
  "flush_input_data dev = Some d' \<Longrightarrow> read_recursion_depth d' = read_recursion_depth dev"
proof (induction rule: flush_input_data.raw_induct [rotated 1, consumes 1])
  case (1 flush dev d')
  then show ?case
    by (auto split: bulk_result.splits if_splits)
qed

termination simple_read
proof (relation "measure (\<lambda>(pyfloat, f, n, lo, hi, vr, mode, scale, dev).
                            nat (10 - read_recursion_depth dev))")
  show "wf (measure (\<lambda>(pyfloat, f, n, lo, hi, vr, mode, scale, dev).
                            nat (10 - read_recursion_depth dev)))"
    by simp
next
  fix pyfloat f n lo hi vr mode scale dev x1 d raw d'
  assume "(x1, d) = simple_read_scan f n lo hi vr mode dev"
    and "read_recursion_depth d < 10"
    and "flush_input_data (d\<lparr>read_recursion_depth := read_recursion_depth d + 1\<rparr>) = Some d'"
  then have "read_recursion_depth d = read_recursion_depth dev"
    and "read_recursion_depth d < 10"
    and "read_recursion_depth d' = read_recursion_depth d + 1"
    using simple_read_scan_depth [of f n lo hi vr mode dev] flush_input_data_depth [of _ d']
    by (auto dest: arg_cong [where f = snd])
  then show "((pyfloat, f, n, lo, hi, vr, mode, scale, d'), (pyfloat, f, n, lo, hi, vr, mode, scale, dev))
      \<in> measure (\<lambda>(pyfloat, f, n, lo, hi, vr, mode, scale, dev). nat (10 - read_recursion_depth dev))"
    by simp
qed

declare simple_read.simps [simp del]

section \<open>Evaluation of the examples\<close>

text \<open>The equations that run the model on a concrete device.\<close>

lemmas eval_simps = simple_read.simps simple_read_scan_def configure_read_def send_message_def
  stop_def read_scan_data_def read_scan_loop.simps simple_read_output_def slice_from_def
  scenario_device_def quiet_def timed_out_def ascii_def upper_def upper_char_def show_int_def
  show_nat.simps digit_char_def rstrip_nul_def Let_def upto.simps flush_input_data.simps
  quiet_device_def scan_starts_def wire_def attempts_made_def configure_commands_def
  calib_queries_def


section \<open>Properties of the configuration\<close>

lemma send_message_accepted:
  assumes "accepts (m # ms) (r # rs) (ctrl_out dev) (ctrl_in dev)"
  shows "send_message m dev =
           (Inr (rstrip_nul r),
            dev\<lparr>ctrl_out := stl (ctrl_out dev), ctrl_in := stl (ctrl_in dev),
                sent := sent dev @ [wire m]\<rparr>)"
  using assms by (simp add: send_message_def wire_def Let_def)

lemma send_all_accepted:
  "accepts ms rs (ctrl_out dev) (ctrl_in dev) \<Longrightarrow>
   send_all ms dev =
     (Inr (),
      dev\<lparr>ctrl_out := sdrop (length ms) (ctrl_out dev), ctrl_in := sdrop (length ms) (ctrl_in dev),
          sent := sent dev @ map wire ms\<rparr>)"
proof (induction ms arbitrary: rs dev)
  case Nil
  then show ?case by simp
next
  case (Cons m ms)
  then obtain r rs' where rs: "rs = r # rs'"
    by (cases rs) auto
  from Cons.prems have step: "send_message m dev =
           (Inr (rstrip_nul r),
            dev\<lparr>ctrl_out := stl (ctrl_out dev), ctrl_in := stl (ctrl_in dev),
                sent := sent dev @ [wire m]\<rparr>)"
    unfolding rs by (rule send_message_accepted)
  from Cons.prems have rest: "accepts ms rs' (stl (ctrl_out dev)) (stl (ctrl_in dev))"
    unfolding rs by simp
  show ?case
    using Cons.IH [of rs' "dev\<lparr>ctrl_out := stl (ctrl_out dev), ctrl_in := stl (ctrl_in dev),
                sent := sent dev @ [wire m]\<rparr>"] rest
    by (simp add: step)
qed

lemma configure_read_send_all:
  "configure_read f n lo hi vr mode dev =
     (if Some (mode, vr, lo, hi, f, n) = conf dev then (Inr (), dev)
      else (case send_all (configure_commands f n lo hi vr mode) dev of
              (Inl e, d) \<Rightarrow> (Inl e, d)
            | (Inr u, d) \<Rightarrow> (Inr (), d\<lparr>conf := Some (mode, vr, lo, hi, f, n)\<rparr>)))"
  by (simp add: configure_read_def configure_commands_def Let_def split: prod.split sum.split)

lemma send_message_conf: "conf (snd (send_message m dev)) = conf dev"
  by (simp add: send_message_def Let_def split: ctrl_out_result.split ctrl_in_result.split)

lemma send_all_conf: "conf (snd (send_all ms dev)) = conf dev"
proof (induction ms arbitrary: dev)
  case Nil
  show ?case by simp
next
  case (Cons m ms)
  show ?case
    using send_message_conf [of m dev] Cons.IH [of "snd (send_message m dev)"]
    by (auto split: prod.split sum.split)
qed

lemma configure_read_not_skipped:
  assumes "conf d \<noteq> Some (mode, vr, lo, hi, f, n)"
  shows "configure_read f n lo hi vr mode d \<noteq> (Inr (), d)"
proof
  assume "configure_read f n lo hi vr mode d = (Inr (), d)"
  with assms have "conf d = Some (mode, vr, lo, hi, f, n)"
    by (auto simp: configure_read_send_all split: if_splits prod.splits sum.splits
        dest: arg_cong [where f = conf])
  with assms show False
    by simp
qed

lemma sent_send_message:
  "sent (snd (send_message m dev)) = sent dev \<or> sent (snd (send_message m dev)) = sent dev @ [wire m]"
  by (simp add: send_message_def wire_def Let_def split: ctrl_out_result.split ctrl_in_result.split)

lemma sent_send_all:
  "\<exists>k\<le>length ms. sent (snd (send_all ms dev)) = sent dev @ take k (map wire ms)"
proof (induction ms arbitrary: dev)
  case Nil
  show ?case by simp
next
  case (Cons m ms)
  obtain x d where step: "send_message m dev = (x, d)"
    by (cases "send_message m dev")
  show ?case
  proof (cases x)
    case (Inl e)
    from sent_send_message [of m dev] step
    have "sent d = sent dev @ take 0 (map wire (m # ms)) \<or> sent d = sent dev @ take 1 (map wire (m # ms))"
      by simp
    then show ?thesis
      using step Inl by (auto intro: exI [of _ 0] exI [of _ 1])
  next
    case (Inr r)
    with step have "fst (send_message m dev) = Inr r"
      by simp
    then have "sent d = sent dev @ [wire m]"
      using step
      by (auto simp: send_message_def wire_def Let_def
          split: ctrl_out_result.splits ctrl_in_result.splits if_splits)
    moreover from Cons.IH [of d] obtain k where "k \<le> length ms"
      and "sent (snd (send_all ms d)) = sent d @ take k (map wire ms)"
      by auto
    ultimately show ?thesis
      using step Inr by (auto intro!: exI [of _ "Suc k"])
  qed
qed

lemma sent_configure_read:
  "\<exists>k\<le>6. sent (snd (configure_read f n lo hi vr mode dev))
            = sent dev @ take k (map wire (configure_commands f n lo hi vr mode))"
proof (cases "Some (mode, vr, lo, hi, f, n) = conf dev")
  case True
  then show ?thesis
    by (auto simp: configure_read_send_all intro: exI [of _ 0])
next
  case False
  have six: "length (configure_commands f n lo hi vr mode) = 6"
    by (simp add: configure_commands_def)
  from sent_send_all [of "configure_commands f n lo hi vr mode" dev] False
  show ?thesis
    unfolding six by (auto simp: configure_read_send_all split: prod.splits sum.splits)
qed

text \<open>
  Claim C5. A call of \<^verbatim>\<open>configure_read\<close> with the configuration that is recorded
  returns at once and leaves the device object as it is: nothing is sent. With another
  configuration, on a device that takes the six commands, the call sends exactly the
  channel-mode, range, low-channel, high-channel, rate and sample-count commands, in
  this order, and records the configuration. Hence a second call with the same values
  after a call that returned sends nothing. Whatever the device does, what a call sends
  is the first \<open>k\<close> of the six commands, in this order.
\<close>

theorem configure_read_idempotent:
  "(conf dev = Some (mode, vr, lo, hi, f, n) \<longrightarrow>
      configure_read f n lo hi vr mode dev = (Inr (), dev))
   \<and> (conf dev \<noteq> Some (mode, vr, lo, hi, f, n)
        \<and> accepts (configure_commands f n lo hi vr mode) rs (ctrl_out dev) (ctrl_in dev) \<longrightarrow>
      configure_read f n lo hi vr mode dev =
        (Inr (), dev\<lparr>ctrl_out := sdrop 6 (ctrl_out dev), ctrl_in := sdrop 6 (ctrl_in dev),
                    sent := sent dev @ map wire (configure_commands f n lo hi vr mode),
                    conf := Some (mode, vr, lo, hi, f, n)\<rparr>))
   \<and> (fst (configure_read f n lo hi vr mode dev) = Inr () \<longrightarrow>
      configure_read f n lo hi vr mode (snd (configure_read f n lo hi vr mode dev))
        = (Inr (), snd (configure_read f n lo hi vr mode dev)))
   \<and> (\<exists>k\<le>6. sent (snd (configure_read f n lo hi vr mode dev))
                = sent dev @ take k (map wire (configure_commands f n lo hi vr mode)))"
proof (intro conjI impI)
  assume "conf dev = Some (mode, vr, lo, hi, f, n)"
  then show "configure_read f n lo hi vr mode dev = (Inr (), dev)"
    by (simp add: configure_read_send_all)
next
  assume "conf dev \<noteq> Some (mode, vr, lo, hi, f, n)
        \<and> accepts (configure_commands f n lo hi vr mode) rs (ctrl_out dev) (ctrl_in dev)"
  then have differs: "Some (mode, vr, lo, hi, f, n) \<noteq> conf dev"
    and ok: "accepts (configure_commands f n lo hi vr mode) rs (ctrl_out dev) (ctrl_in dev)"
    by auto
  have "length (configure_commands f n lo hi vr mode) = 6"
    by (simp add: configure_commands_def)
  with send_all_accepted [OF ok] differs
  show "configure_read f n lo hi vr mode dev =
        (Inr (), dev\<lparr>ctrl_out := sdrop 6 (ctrl_out dev), ctrl_in := sdrop 6 (ctrl_in dev),
                    sent := sent dev @ map wire (configure_commands f n lo hi vr mode),
                    conf := Some (mode, vr, lo, hi, f, n)\<rparr>)"
    by (simp add: configure_read_send_all)
next
  assume ok: "fst (configure_read f n lo hi vr mode dev) = Inr ()"
  then have "conf (snd (configure_read f n lo hi vr mode dev)) = Some (mode, vr, lo, hi, f, n)"
    by (auto simp: configure_read_send_all split: if_splits prod.splits sum.splits)
  then show "configure_read f n lo hi vr mode (snd (configure_read f n lo hi vr mode dev))
        = (Inr (), snd (configure_read f n lo hi vr mode dev))"
    by (simp add: configure_read_send_all)
next
  show "\<exists>k\<le>6. sent (snd (configure_read f n lo hi vr mode dev))
                = sent dev @ take k (map wire (configure_commands f n lo hi vr mode))"
    by (rule sent_configure_read)
qed

theorem configure_read_idempotent_witness:
  "conf (scenario_device [] [13, 20, 17, 18, 17, 17] []) \<noteq> Some (''SE'', 10, 0, 1, 1000, 4)
   \<and> accepts (configure_commands 1000 4 0 1 10 ''SE'') ['''', '''', '''', '''', '''', '''']
        (ctrl_out (scenario_device [] [13, 20, 17, 18, 17, 17] []))
        (ctrl_in (scenario_device [] [13, 20, 17, 18, 17, 17] []))
   \<and> sent (snd (configure_read 1000 4 0 1 10 ''SE'' (scenario_device [] [13, 20, 17, 18, 17, 17] [])))
       = [''AI:CHMODE=SE'' @ [CHR 0x00], ''AISCAN:RANGE=BIP10V'' @ [CHR 0x00],
          ''AISCAN:LOWCHAN=0'' @ [CHR 0x00], ''AISCAN:HIGHCHAN=1'' @ [CHR 0x00],
          ''AISCAN:RATE=1000'' @ [CHR 0x00], ''AISCAN:SAMPLES=4'' @ [CHR 0x00]]
   \<and> conf (snd (configure_read 1000 4 0 1 10 ''SE'' (scenario_device [] [13, 20, 17, 18, 17, 17] [])))
       = Some (''SE'', 10, 0, 1, 1000, 4)"
proof -
  let ?dev = "scenario_device [] [13, 20, 17, 18, 17, 17] []"
  have differs: "conf ?dev \<noteq> Some (''SE'', 10, 0, 1, 1000, 4)"
    by (simp add: scenario_device_def)
  have ok: "accepts (configure_commands 1000 4 0 1 10 ''SE'') ['''', '''', '''', '''', '''', '''']
              (ctrl_out ?dev) (ctrl_in ?dev)"
    by (simp add: eval_simps)
  from configure_read_idempotent
         [where dev = ?dev and mode = "''SE''" and vr = 10 and lo = 0 and hi = 1 and f = 1000
            and n = 4 and rs = "['''', '''', '''', '''', '''', '''']"]
       differs ok
  have "configure_read 1000 4 0 1 10 ''SE'' ?dev =
        (Inr (), ?dev\<lparr>ctrl_out := sdrop 6 (ctrl_out ?dev), ctrl_in := sdrop 6 (ctrl_in ?dev),
                    sent := sent ?dev @ map wire (configure_commands 1000 4 0 1 10 ''SE''),
                    conf := Some (''SE'', 10, 0, 1, 1000, 4)\<rparr>)"
    by blast
  then show ?thesis
    using differs ok by (simp add: eval_simps)
qed

text \<open>
  Claim C6. \<^verbatim>\<open>configure_read\<close> raises exactly when the configuration differs from
  the recorded one and one of the six commands, sent in order, raises; the exception is
  that of the first command that raised. The recorded configuration is then the one
  from before the call, and it is not the configuration asked for; the next call with
  the same values is therefore not the call that returns at once with nothing done.
\<close>

theorem configure_read_failure:
  "(fst (configure_read f n lo hi vr mode dev) = Inl e) =
     (conf dev \<noteq> Some (mode, vr, lo, hi, f, n)
      \<and> fst (send_all (configure_commands f n lo hi vr mode) dev) = Inl e)
   \<and> (fst (configure_read f n lo hi vr mode dev) = Inl e \<longrightarrow>
        conf (snd (configure_read f n lo hi vr mode dev)) = conf dev
        \<and> conf (snd (configure_read f n lo hi vr mode dev)) \<noteq> Some (mode, vr, lo, hi, f, n)
        \<and> configure_read f n lo hi vr mode (snd (configure_read f n lo hi vr mode dev))
            \<noteq> (Inr (), snd (configure_read f n lo hi vr mode dev)))"
proof (intro conjI impI)
  show "(fst (configure_read f n lo hi vr mode dev) = Inl e) =
     (conf dev \<noteq> Some (mode, vr, lo, hi, f, n)
      \<and> fst (send_all (configure_commands f n lo hi vr mode) dev) = Inl e)"
    by (auto simp: configure_read_send_all split: prod.splits sum.splits)
next
  assume failed: "fst (configure_read f n lo hi vr mode dev) = Inl e"
  then have differs: "Some (mode, vr, lo, hi, f, n) \<noteq> conf dev"
    by (auto simp: configure_read_send_all)
  with failed show same: "conf (snd (configure_read f n lo hi vr mode dev)) = conf dev"
    using send_all_conf [of "configure_commands f n lo hi vr mode" dev]
    by (auto simp: configure_read_send_all split: prod.splits sum.splits)
  with differs
  show still: "conf (snd (configure_read f n lo hi vr mode dev)) \<noteq> Some (mode, vr, lo, hi, f, n)"
    by auto
  then show "configure_read f n lo hi vr mode (snd (configure_read f n lo hi vr mode dev))
            \<noteq> (Inr (), snd (configure_read f n lo hi vr mode dev))"
    by (rule configure_read_not_skipped)
qed

theorem configure_read_failure_witness:
  "fst (configure_read 1000 4 0 1 10 ''SE'' (scenario_device [] [13, 20] []))
     = Inl (IOError ''Could not send message'')
   \<and> sent (snd (configure_read 1000 4 0 1 10 ''SE'' (scenario_device [] [13, 20] [])))
     = [''AI:CHMODE=SE'' @ [CHR 0x00], ''AISCAN:RANGE=BIP10V'' @ [CHR 0x00],
        ''AISCAN:LOWCHAN=0'' @ [CHR 0x00]]
   \<and> conf (snd (configure_read 1000 4 0 1 10 ''SE'' (scenario_device [] [13, 20] []))) = None
   \<and> configure_read 1000 4 0 1 10 ''SE''
         (snd (configure_read 1000 4 0 1 10 ''SE'' (scenario_device [] [13, 20] [])))
       \<noteq> (Inr (), snd (configure_read 1000 4 0 1 10 ''SE'' (scenario_device [] [13, 20] [])))"
proof -
  let ?dev = "scenario_device [] [13, 20] []"
  have failed: "fst (configure_read 1000 4 0 1 10 ''SE'' ?dev) = Inl (IOError ''Could not send message'')"
    by (simp add: eval_simps)
  have log: "sent (snd (configure_read 1000 4 0 1 10 ''SE'' ?dev))
     = [''AI:CHMODE=SE'' @ [CHR 0x00], ''AISCAN:RANGE=BIP10V'' @ [CHR 0x00],
        ''AISCAN:LOWCHAN=0'' @ [CHR 0x00]]"
    by (simp add: eval_simps)
  have before: "conf ?dev = None"
    by (simp add: scenario_device_def)
  from configure_read_failure
         [where dev = ?dev and mode = "''SE''" and vr = 10 and lo = 0 and hi = 1 and f = 1000
            and n = 4 and e = "IOError ''Could not send message''"]
       failed
  have "conf (snd (configure_read 1000 4 0 1 10 ''SE'' ?dev)) = conf ?dev"
    and "configure_read 1000 4 0 1 10 ''SE'' (snd (configure_read 1000 4 0 1 10 ''SE'' ?dev))
           \<noteq> (Inr (), snd (configure_read 1000 4 0 1 10 ''SE'' ?dev))"
    by blast+
  with before failed log show ?thesis
    by simp
qed

section \<open>Properties of the calibration cache\<close>

lemma get_calib_data_accepted:
  assumes ok: "accepts (calib_queries chan) [r1, r2] (ctrl_out dev) (ctrl_in dev)"
    and slope: "parse_float pyfloat (rstrip_nul r1) = Inr slope"
    and offset: "parse_float pyfloat (rstrip_nul r2) = Inr offset"
  shows "get_calib_data pyfloat chan dev =
           (Inr (slope, offset),
            dev\<lparr>ctrl_out := sdrop 2 (ctrl_out dev), ctrl_in := sdrop 2 (ctrl_in dev),
                sent := sent dev @ map wire (calib_queries chan)\<rparr>)"
proof -
  let ?q1 = "''?AI{'' @ show_int chan @ ''}:SLOPE''"
  let ?q2 = "''?AI{'' @ show_int chan @ ''}:OFFSET''"
  let ?d1 = "dev\<lparr>ctrl_out := stl (ctrl_out dev), ctrl_in := stl (ctrl_in dev),
                sent := sent dev @ [wire ?q1]\<rparr>"
  from ok have a1: "accepts (?q1 # [?q2]) (r1 # [r2]) (ctrl_out dev) (ctrl_in dev)"
    by (simp add: calib_queries_def)
  then have a2: "accepts (?q2 # []) (r2 # []) (ctrl_out ?d1) (ctrl_in ?d1)"
    by simp
  have two: "sdrop 2 s = stl (stl s)" for s :: "'a stream"
    by (simp add: eval_nat_numeral)
  have s1: "send_message ?q1 dev = (Inr (rstrip_nul r1), ?d1)"
    by (rule send_message_accepted [OF a1])
  have s2: "send_message ?q2 ?d1 =
              (Inr (rstrip_nul r2),
               ?d1\<lparr>ctrl_out := stl (ctrl_out ?d1), ctrl_in := stl (ctrl_in ?d1),
                   sent := sent ?d1 @ [wire ?q2]\<rparr>)"
    by (rule send_message_accepted [OF a2])
  have "get_calib_data pyfloat chan dev =
          (Inr (slope, offset),
           ?d1\<lparr>ctrl_out := stl (ctrl_out ?d1), ctrl_in := stl (ctrl_in ?d1),
               sent := sent ?d1 @ [wire ?q2]\<rparr>)"
    by (simp only: get_calib_data_def s1 s2 slope offset prod.case sum.case)
  then show ?thesis
    by (simp add: two calib_queries_def)
qed

text \<open>
  Claim C9. A lookup of a key that is in the cache returns the stored pair and leaves
  the device object as it is: no command is sent. A lookup of a key that is not, on a
  device that answers the two queries with text that parses, sends exactly the slope
  query and the offset query, stores the parsed pair under the key and returns it; the
  lookup of the same key after it returns the same pair and changes nothing.
\<close>

theorem calib_lookup_cached:
  "(calib_data dev (chan, mode, code) = Some cal \<longrightarrow>
      calib_lookup pyfloat chan mode code dev = (Inr cal, dev))
   \<and> (calib_data dev (chan, mode, code) = None
        \<and> accepts (calib_queries chan) [r1, r2] (ctrl_out dev) (ctrl_in dev)
        \<and> parse_float pyfloat (rstrip_nul r1) = Inr slope
        \<and> parse_float pyfloat (rstrip_nul r2) = Inr offset \<longrightarrow>
      calib_lookup pyfloat chan mode code dev =
        (Inr (slope, offset),
         dev\<lparr>ctrl_out := sdrop 2 (ctrl_out dev), ctrl_in := sdrop 2 (ctrl_in dev),
             sent := sent dev @ map wire (calib_queries chan),
             calib_data := (calib_data dev)((chan, mode, code) \<mapsto> (slope, offset))\<rparr>)
      \<and> calib_lookup pyfloat chan mode code (snd (calib_lookup pyfloat chan mode code dev)) =
        (Inr (slope, offset), snd (calib_lookup pyfloat chan mode code dev)))"
proof (intro conjI impI)
  assume "calib_data dev (chan, mode, code) = Some cal"
  then show "calib_lookup pyfloat chan mode code dev = (Inr cal, dev)"
    by (simp add: calib_lookup_def)
next
  assume h: "calib_data dev (chan, mode, code) = None
        \<and> accepts (calib_queries chan) [r1, r2] (ctrl_out dev) (ctrl_in dev)
        \<and> parse_float pyfloat (rstrip_nul r1) = Inr slope
        \<and> parse_float pyfloat (rstrip_nul r2) = Inr offset"
  then have first: "calib_lookup pyfloat chan mode code dev =
        (Inr (slope, offset),
         dev\<lparr>ctrl_out := sdrop 2 (ctrl_out dev), ctrl_in := sdrop 2 (ctrl_in dev),
             sent := sent dev @ map wire (calib_queries chan),
             calib_data := (calib_data dev)((chan, mode, code) \<mapsto> (slope, offset))\<rparr>)"
    using get_calib_data_accepted [of chan r1 r2 dev pyfloat slope offset]
    by (simp add: calib_lookup_def)
  then show "calib_lookup pyfloat chan mode code dev =
        (Inr (slope, offset),
         dev\<lparr>ctrl_out := sdrop 2 (ctrl_out dev), ctrl_in := sdrop 2 (ctrl_in dev),
             sent := sent dev @ map wire (calib_queries chan),
             calib_data := (calib_data dev)((chan, mode, code) \<mapsto> (slope, offset))\<rparr>)" .
  show "calib_lookup pyfloat chan mode code (snd (calib_lookup pyfloat chan mode code dev)) =
        (Inr (slope, offset), snd (calib_lookup pyfloat chan mode code dev))"
    unfolding first by (simp add: calib_lookup_def)
qed

theorem calib_lookup_cached_witness:
  "calib_lookup example_float 0 ''SE'' ''BIP10V''
     (scenario_device [] [13, 14] [''AI{0}:SLOPE=1.5'', ''AI{0}:OFFSET=0.25''])
   = (Inr (3 / 2, 1 / 4),
      (scenario_device [] [] [])
        \<lparr>sent := [''?AI{0}:SLOPE'' @ [CHR 0x00], ''?AI{0}:OFFSET'' @ [CHR 0x00]],
         calib_data := [(0, ''SE'', ''BIP10V'') \<mapsto> (3 / 2, 1 / 4)]\<rparr>)
   \<and> calib_lookup example_float 0 ''SE'' ''BIP10V''
        ((scenario_device [] [] [])
           \<lparr>sent := [''?AI{0}:SLOPE'' @ [CHR 0x00], ''?AI{0}:OFFSET'' @ [CHR 0x00]],
            calib_data := [(0, ''SE'', ''BIP10V'') \<mapsto> (3 / 2, 1 / 4)]\<rparr>)
   = (Inr (3 / 2, 1 / 4),
      (scenario_device [] [] [])
        \<lparr>sent := [''?AI{0}:SLOPE'' @ [CHR 0x00], ''?AI{0}:OFFSET'' @ [CHR 0x00]],
         calib_data := [(0, ''SE'', ''BIP10V'') \<mapsto> (3 / 2, 1 / 4)]\<rparr>)"
proof -
  let ?dev = "scenario_device [] [13, 14] [''AI{0}:SLOPE=1.5'', ''AI{0}:OFFSET=0.25'']"
  have miss: "calib_data ?dev (0, ''SE'', ''BIP10V'') = None"
    by (simp add: scenario_device_def)
  have ok: "accepts (calib_queries 0) [''AI{0}:SLOPE=1.5'', ''AI{0}:OFFSET=0.25'']
              (ctrl_out ?dev) (ctrl_in ?dev)"
    by (simp add: eval_simps)
  have slope: "parse_float example_float (rstrip_nul ''AI{0}:SLOPE=1.5'') = Inr (3 / 2)"
    by (simp add: parse_float_def second_field_def example_float_def rstrip_nul_def)
  have offset: "parse_float example_float (rstrip_nul ''AI{0}:OFFSET=0.25'') = Inr (1 / 4)"
    by (simp add: parse_float_def second_field_def example_float_def rstrip_nul_def)
  from calib_lookup_cached
         [where dev = ?dev and chan = 0 and mode = "''SE''" and code = "''BIP10V''"
            and pyfloat = example_float and ?r1.0 = "''AI{0}:SLOPE=1.5''"
            and ?r2.0 = "''AI{0}:OFFSET=0.25''" and slope = "3 / 2" and offset = "1 / 4"]
       miss ok slope offset
  have first: "calib_lookup example_float 0 ''SE'' ''BIP10V'' ?dev =
        (Inr (3 / 2, 1 / 4),
         ?dev\<lparr>ctrl_out := sdrop 2 (ctrl_out ?dev), ctrl_in := sdrop 2 (ctrl_in ?dev),
             sent := sent ?dev @ map wire (calib_queries 0),
             calib_data := (calib_data ?dev)((0, ''SE'', ''BIP10V'') \<mapsto> (3 / 2, 1 / 4))\<rparr>)"
    and again: "calib_lookup example_float 0 ''SE'' ''BIP10V''
                  (snd (calib_lookup example_float 0 ''SE'' ''BIP10V'' ?dev)) =
        (Inr (3 / 2, 1 / 4), snd (calib_lookup example_float 0 ''SE'' ''BIP10V'' ?dev))"
    by blast+
  have after: "?dev\<lparr>ctrl_out := sdrop 2 (ctrl_out ?dev), ctrl_in := sdrop 2 (ctrl_in ?dev),
             sent := sent ?dev @ map wire (calib_queries 0),
             calib_data := (calib_data ?dev)((0, ''SE'', ''BIP10V'') \<mapsto> (3 / 2, 1 / 4))\<rparr>
        = (scenario_device [] [] [])
        \<lparr>sent := [''?AI{0}:SLOPE'' @ [CHR 0x00], ''?AI{0}:OFFSET'' @ [CHR 0x00]],
         calib_data := [(0, ''SE'', ''BIP10V'') \<mapsto> (3 / 2, 1 / 4)]\<rparr>"
    by (simp add: eval_simps eval_nat_numeral)
  from first again show ?thesis
    unfolding after by simp
qed

section \<open>Properties of the calibration formula\<close>



section \<open>Properties of the synchronous bulk read\<close>







section \<open>Properties of the one-shot read\<close>

lemma wire_start_not_configure:
  "wire ''AISCAN:START'' \<notin> set (map wire (configure_commands f n lo hi vr mode))"
  by (simp add: configure_commands_def wire_def upper_def upper_char_def)

lemma scan_starts_configure_read:
  "scan_starts (snd (configure_read f n lo hi vr mode dev)) = scan_starts dev"
proof -
  obtain k where "sent (snd (configure_read f n lo hi vr mode dev))
            = sent dev @ take k (map wire (configure_commands f n lo hi vr mode))"
    using sent_configure_read [of f n lo hi vr mode dev] by auto
  moreover have "wire ''AISCAN:START'' \<notin> set (take k (map wire (configure_commands f n lo hi vr mode)))"
    using wire_start_not_configure [of f n lo hi vr mode] by (auto dest: in_set_takeD)
  ultimately show ?thesis
    by (simp add: scan_starts_def)
qed

lemma sent_send_message_ok:
  "send_message m dev = (Inr r, d) \<Longrightarrow> sent d = sent dev @ [wire m]"
  by (auto simp: send_message_def wire_def Let_def
      split: ctrl_out_result.splits ctrl_in_result.splits if_splits)

lemma read_scan_loop_sent: "sent (snd (read_scan_loop len data dev)) = sent dev"
proof (induction len data dev rule: read_scan_loop.induct)
  case (1 len data dev)
  show ?case
    by (subst read_scan_loop.simps) (simp add: 1 split: bulk_result.split)
qed

lemma flush_input_data_sent:
  "flush_input_data dev = Some d' \<Longrightarrow> sent d' = sent dev"
proof (induction rule: flush_input_data.raw_induct [rotated 1, consumes 1])
  case (1 flush dev d')
  then show ?case
    by (auto split: bulk_result.splits if_splits)
qed

lemma scan_starts_simple_read_scan:
  assumes "simple_read_scan f n lo hi vr mode dev = (Inr raw, d)"
  shows "scan_starts d = scan_starts dev + 1"
proof -
  from assms obtain d1 r d2 d3 r' where
    c: "configure_read f n lo hi vr mode dev = (Inr (), d1)"
    and s: "send_message ''AISCAN:START'' d1 = (Inr r, d2)"
    and rd: "read_scan_data n f d2 = (Inr raw, d3)"
    and st: "send_message ''AISCAN:STOP'' d3 = (Inr r', d)"
    by (auto simp: simple_read_scan_def stop_def split: prod.splits sum.splits)
  from c have "scan_starts d1 = scan_starts dev"
    using scan_starts_configure_read [of f n lo hi vr mode dev] by simp
  moreover from s have "scan_starts d2 = scan_starts d1 + 1"
    by (simp add: scan_starts_def sent_send_message_ok)
  moreover from rd have "sent d3 = sent d2"
    using read_scan_loop_sent [of n "[]" d2]
    by (auto simp: read_scan_data_def split: if_splits)
  moreover have "wire ''AISCAN:STOP'' \<noteq> wire ''AISCAN:START''"
    by (simp add: wire_def upper_def upper_char_def)
  with st have "scan_starts d = scan_starts d3"
    by (simp add: scan_starts_def sent_send_message_ok)
  ultimately show ?thesis
    by (simp add: scan_starts_def)
qed

lemma simple_read_retries:
  assumes "short_reads k f n lo hi vr mode dev = Some (raw, d)"
    and "read_recursion_depth dev = 10 - int k"
  shows "simple_read pyfloat f n lo hi vr mode scale dev =
           Some (simple_read_output pyfloat lo hi vr mode scale raw (d\<lparr>read_recursion_depth := 0\<rparr>))
         \<and> scan_starts d = scan_starts dev + k + 1"
  using assms
proof (induction k arbitrary: dev)
  case 0
  then have scan: "simple_read_scan f n lo hi vr mode dev = (Inr raw, d)"
    and short: "int (length raw) \<noteq> n"
    by (auto split: prod.splits sum.splits if_splits)
  from scan have "read_recursion_depth d = read_recursion_depth dev"
    using simple_read_scan_depth [of f n lo hi vr mode dev] by simp
  with 0 have "\<not> read_recursion_depth d < 10"
    by simp
  with scan short show ?case
    by (subst simple_read.simps) (simp add: scan_starts_simple_read_scan)
next
  case (Suc k)
  then obtain raw1 d1 d2 where scan: "simple_read_scan f n lo hi vr mode dev = (Inr raw1, d1)"
    and short: "int (length raw1) \<noteq> n"
    and flush: "flush_input_data (d1\<lparr>read_recursion_depth := read_recursion_depth d1 + 1\<rparr>) = Some d2"
    and rest: "short_reads k f n lo hi vr mode d2 = Some (raw, d)"
    by (auto split: prod.splits sum.splits if_splits option.splits)
  from scan have depth1: "read_recursion_depth d1 = read_recursion_depth dev"
    using simple_read_scan_depth [of f n lo hi vr mode dev] by simp
  with Suc.prems have below: "read_recursion_depth d1 < 10"
    by simp
  from flush depth1 Suc.prems have depth2: "read_recursion_depth d2 = 10 - int k"
    by (auto dest!: flush_input_data_depth)
  from flush have "scan_starts d2 = scan_starts d1"
    by (auto simp: scan_starts_def dest!: flush_input_data_sent)
  with scan have starts: "scan_starts d2 = scan_starts dev + 1"
    by (simp add: scan_starts_simple_read_scan)
  have step: "simple_read pyfloat f n lo hi vr mode scale dev
                = simple_read pyfloat f n lo hi vr mode scale d2"
    using scan short below flush by (subst simple_read.simps) simp
  from Suc.IH [OF rest depth2] starts show ?case
    unfolding step by simp
qed

lemma simple_read_channels_unscaled:
  "nchannels \<noteq> 0 \<Longrightarrow>
   \<exists>out'. simple_read_channels pyfloat nchannels vr mode False data chans out dev = (Inr out', dev)"
  by (induction chans arbitrary: out) (simp_all add: slice_from_def Let_def)

lemma simple_read_output_unscaled:
  assumes "highchan \<noteq> lowchan - 1"
  shows "\<exists>out. simple_read_output pyfloat lowchan highchan vr mode False data dev = (Inr out, dev)"
proof -
  from assms have n: "1 + highchan - lowchan \<noteq> 0"
    by simp
  from simple_read_channels_unscaled [OF n]
  obtain out' where "simple_read_channels pyfloat (1 + highchan - lowchan) vr mode False data
      [lowchan .. max (lowchan + 1) highchan - 1] [] dev = (Inr out', dev)"
    by blast
  with n show ?thesis
    by (auto simp: simple_read_output_def Let_def split: list.split)
qed


text \<open>
  Claim C3, as amended. Let \<^verbatim>\<open>simple_read\<close> be entered with a depth of zero, and let
  eleven attempts in a row each read another length than \<^verbatim>\<open>nsamples\<close> (each attempt's
  commands succeed and each flush returns). Then the call makes exactly these eleven
  attempts, the first and ten retries: eleven scans are started. It then goes on with
  the data of the last attempt exactly as after a read of the right length, with the
  depth reset; without scaling, and unless the channel range is empty by one, it
  returns a value and raises nothing.
\<close>

theorem simple_read_persistent_short_read:
  assumes "read_recursion_depth dev = 0"
    and "short_reads 10 frequency nsamples lowchan highchan vrange mode dev = Some (raw, d)"
  shows "simple_read pyfloat frequency nsamples lowchan highchan vrange mode scale dev =
           Some (simple_read_output pyfloat lowchan highchan vrange mode scale raw
                   (d\<lparr>read_recursion_depth := 0\<rparr>))
         \<and> scan_starts d = scan_starts dev + 11
         \<and> (\<not> scale \<and> highchan \<noteq> lowchan - 1 \<longrightarrow>
              (\<exists>out. simple_read pyfloat frequency nsamples lowchan highchan vrange mode scale dev =
                 Some (Inr out, d\<lparr>read_recursion_depth := 0\<rparr>)))"
proof -
  from assms(1) have depth: "read_recursion_depth dev = 10 - int 10"
    by simp
  from simple_read_retries [OF assms(2) depth, of pyfloat scale]
  have run: "simple_read pyfloat frequency nsamples lowchan highchan vrange mode scale dev =
           Some (simple_read_output pyfloat lowchan highchan vrange mode scale raw
                   (d\<lparr>read_recursion_depth := 0\<rparr>))"
    and starts: "scan_starts d = scan_starts dev + 11"
    by simp_all
  show ?thesis
    using run starts
      simple_read_output_unscaled [of highchan lowchan pyfloat vrange mode raw "d\<lparr>read_recursion_depth := 0\<rparr>"]
    by auto
qed

lemma short_reads_numeral:
  "short_reads (numeral k) f n lo hi vr mode dev =
     (case simple_read_scan f n lo hi vr mode dev of
        (Inl e, d) \<Rightarrow> None
      | (Inr raw, d) \<Rightarrow>
          if int (length raw) \<noteq> n then
            (case flush_input_data (d\<lparr>read_recursion_depth := read_recursion_depth d + 1\<rparr>) of
               None \<Rightarrow> None
             | Some d' \<Rightarrow> short_reads (pred_numeral k) f n lo hi vr mode d')
          else None)"
  by (simp add: numeral_eq_Suc)

theorem simple_read_persistent_short_read_witness:
  "read_recursion_depth quiet_device = 0
   \<and> short_reads 10 1000 4 0 1 10 ''SE'' quiet_device \<noteq> None
   \<and> scan_starts (snd (the (short_reads 10 1000 4 0 1 10 ''SE'' quiet_device))) = 11
   \<and> (\<exists>out d. simple_read example_float 1000 4 0 1 10 ''SE'' False quiet_device = Some (Inr out, d))"
proof -
  have depth: "read_recursion_depth quiet_device = 0"
    by (simp add: quiet_device_def scenario_device_def)
  have fresh: "scan_starts quiet_device = 0"
    by (simp add: quiet_device_def scenario_device_def scan_starts_def)
  have "short_reads 10 1000 4 0 1 10 ''SE'' quiet_device \<noteq> None"
    by (simp add: eval_simps short_reads_numeral)
  then obtain raw d where run: "short_reads 10 1000 4 0 1 10 ''SE'' quiet_device = Some (raw, d)"
    by auto
  have unscaled: "\<not> False \<and> (1::int) \<noteq> 0 - 1"
    by simp
  from simple_read_persistent_short_read [OF depth run, of example_float False] unscaled
  have "scan_starts d = scan_starts quiet_device + 11"
    and "\<exists>out. simple_read example_float 1000 4 0 1 10 ''SE'' False quiet_device =
                 Some (Inr out, d\<lparr>read_recursion_depth := 0\<rparr>)"
    by blast+
  with depth fresh run show ?thesis
    by auto
qed

text \<open>
  The claim as it was stated, with ten attempts in total, fails on the device that times
  out on every bulk read: the call starts eleven scans and returns the empty array.
\<close>

theorem simple_read_ten_attempts_counterexample:
  "attempts_made (simple_read example_float 1000 4 0 1 10 ''SE'' False quiet_device) = Some 11
   \<and> map_option fst (simple_read example_float 1000 4 0 1 10 ''SE'' False quiet_device)
       = Some (Inr (Sequence (Counts [])))"
  by (simp add: eval_simps)

text \<open>
  Claim C1. The scenario of the specification, on the model: frequency 1000, 4 samples,
  channels 0 to 1, range 10, single-ended, no scaling, and a bulk read that delivers the
  samples 10, 20, 30, 40. The call returns the one array \<open>[10, 30]\<close>, not the dictionary
  \<open>{0: [10, 30], 1: [20, 40]}\<close>: the loop over the channels ends before
  \<^verbatim>\<open>highchan\<close>, and a dictionary of one entry is replaced by its value.
\<close>

theorem simple_read_scenario:
  "map_option fst
     (simple_read example_float 1000 4 0 1 10 ''SE'' False
        (scenario_device [[10, 0, 20, 0, 30, 0, 40, 0]] [13, 20, 17, 18, 17, 17, 13, 12] []))
   = Some (Inr (Sequence (Counts [10, 30])))"
  by (simp add: eval_simps)

text \<open>
  Claim C2. The number of arrays is not \<open>1 + highchan - lowchan\<close>. Six samples
  \<open>[1, 2, 3, 4, 5, 6]\<close> scanned over the two channels 0 and 1 give the one array
  \<open>[1, 3, 5]\<close>, returned directly; scanned over the three channels 1 to 3 they give two
  arrays, and since the slice starts at the channel number, not at the channel's place
  in the scan, channel 1 gets the second column and channel 2 the third.
\<close>

theorem simple_read_channel_count:
  "map_option fst
     (simple_read example_float 1000 6 0 1 10 ''SE'' False
        (scenario_device [[1, 0, 2, 0, 3, 0, 4, 0, 5, 0, 6, 0]] [13, 20, 17, 18, 17, 17, 13, 12] []))
   = Some (Inr (Sequence (Counts [1, 3, 5])))
   \<and> map_option fst
     (simple_read example_float 1000 6 1 3 10 ''SE'' False
        (scenario_device [[1, 0, 2, 0, 3, 0, 4, 0, 5, 0, 6, 0]] [13, 20, 17, 18, 17, 17, 13, 12] []))
   = Some (Inr (Mapping [(1, Counts [2, 5]), (2, Counts [3, 6])]))"
  by (simp add: eval_simps)

section \<open>Properties of the bounded buffer\<close>

lemma deque_append_items:
  "length (items dq) \<le> maxlen dq \<Longrightarrow>
   items (deque_append x dq) = drop (length (items dq) + 1 - maxlen dq) (items dq @ [x])"
proof (cases "maxlen dq < length (items dq @ [x])")
  case True
  assume "length (items dq) \<le> maxlen dq"
  with True have "length (items dq) + 1 - maxlen dq = Suc 0"
    by simp
  with True show ?thesis
    by (simp add: deque_append_def Let_def drop_Suc del: drop_append)
next
  case False
  then show ?thesis
    by (simp add: deque_append_def Let_def)
qed

lemma drop_append_short: "k \<le> length xs \<Longrightarrow> drop k xs @ ys = drop k (xs @ ys)"
  by simp

lemma deque_append_maxlen: "maxlen (deque_append x dq) = maxlen dq"
  by (simp add: deque_append_def Let_def)

lemma deque_append_bounded:
  "length (items dq) \<le> maxlen dq \<Longrightarrow> length (items (deque_append x dq)) \<le> maxlen dq"
  by (auto simp: deque_append_def Let_def)

lemma polling_thread_run_items:
  "length (items buf) \<le> maxlen buf \<Longrightarrow>
   items (polling_thread_run rs buf) =
     drop (length (items buf @ packets_of rs) - maxlen buf) (items buf @ packets_of rs)
   \<and> maxlen (polling_thread_run rs buf) = maxlen buf"
proof (induction rs buf rule: polling_thread_run.induct)
  case (1 buf)
  then show ?case by simp
next
  case (2 err rs buf)
  then show ?case by simp
next
  case (3 packet rs buf)
  let ?k = "length (items buf) + 1 - maxlen buf"
  let ?A = "items buf @ [packet]"
  have bounded: "length (items (deque_append packet buf)) \<le> maxlen (deque_append packet buf)"
    using 3 by (simp add: deque_append_bounded deque_append_maxlen)
  have step: "items (deque_append packet buf) = drop ?k ?A"
    using 3 by (simp add: deque_append_items)
  have k: "?k \<le> length ?A" by simp
  have "drop ?k ?A @ packets_of rs = drop ?k (?A @ packets_of rs)"
    using k by (rule drop_append_short)
  moreover have "length (drop ?k ?A @ packets_of rs) - maxlen buf + ?k
                 = length (?A @ packets_of rs) - maxlen buf"
    using 3(2) by auto
  ultimately show ?case
    using "3.IH" [OF bounded] step
    by (simp add: deque_append_maxlen add.commute del: drop_append)
qed

text \<open>
  Claim C8. For every capacity \<open>n\<close> and every run of the poller, the buffer created
  by \<^verbatim>\<open>start_continuous_transfer\<close> holds at most \<open>n\<close> packets, and it holds the
  last \<open>n\<close> packets that were read (all of them while there are no more than \<open>n\<close>),
  oldest first. The statement is about every list of read outcomes, hence about the
  buffer after each append.
\<close>

theorem stream_buffer_drop_oldest:
  "length (items (polling_thread_run rs (snd (start_continuous_transfer rate n packet_size)))) \<le> n
   \<and> items (polling_thread_run rs (snd (start_continuous_transfer rate n packet_size)))
       = drop (length (packets_of rs) - n) (packets_of rs)"
  using polling_thread_run_items [of "deque_new n" rs]
  by (simp add: start_continuous_transfer_def deque_new_def)

end
